theory Spec2Isabelle
  imports Complex_Main
begin

section \<open>The diff viewer of the post revisions editor\<close>

text \<open>
  A shallow embedding of the component \<open>EditorDiffViewer\<close>. Numbers that the component
  reads from the DOM (pixel geometry) are exact rationals. A component instance is a
  record of its props, its state and its instance fields; every call that leaves the
  component (a write to the scroll position of the container, the animated scroll of
  \<open>lib/scroll-to\<close>, a listener registration, an analytics event) is appended to a trace.
  A property read from \<open>null\<close> is the error \<open>TypeError\<close>.
\<close>

subsection \<open>Values\<close>

text \<open>The prop \<open>selectedRevisionId\<close> is an optional number.\<close>

datatype js_id = Undefined | Null | Num int

text \<open>The operand of \<open>!\<close>: \<open>undefined\<close>, \<open>null\<close> and \<open>0\<close> are falsy.\<close>

fun truthy :: "js_id \<Rightarrow> bool" where
  "truthy Undefined = False"
| "truthy Null = False"
| "truthy (Num i) = (i \<noteq> 0)"

text \<open>A computed scroll target: a number, or \<open>NaN\<close> when the offset was \<open>undefined\<close>.\<close>

datatype jsnum = Number rat | NaN

datatype error = TypeError

subsection \<open>The DOM\<close>

text \<open>
  An element with its class list, the geometry the component reads (a field that is
  missing is \<open>None\<close>) and its children in document order.
\<close>

datatype element = Element
  (classList: "string list")
  (offsetTop: "rat option")
  (offsetHeight: "rat option")
  (dom_scrollTop: "rat option")
  (childNodes: "element list")

text \<open>lodash \<open>get (object, path, default)\<close> on a numeric field.\<close>

definition get :: "'a option \<Rightarrow> ('a \<Rightarrow> rat option) \<Rightarrow> rat \<Rightarrow> rat" where
  "get obj field dflt =
     (case obj of None \<Rightarrow> dflt
      | Some x \<Rightarrow> (case field x of None \<Rightarrow> dflt | Some v \<Rightarrow> v))"

definition getCenterOffset :: "element \<Rightarrow> rat" where
  "getCenterOffset node = get (Some node) offsetTop 0 + get (Some node) offsetHeight 0 / 2"

text \<open>All descendants of an element, in document order.\<close>

fun descendants :: "element \<Rightarrow> element list" where
  "descendants (Element cl t h s cs) = concat (map (\<lambda>c. c # descendants c) cs)"

text \<open>The selector \<open>.text-diff__additions, .text-diff__deletions\<close>.\<close>

definition tagged :: "element \<Rightarrow> bool" where
  "tagged e = (''text-diff__additions'' \<in> set (classList e)
             \<or> ''text-diff__deletions'' \<in> set (classList e))"

definition querySelectorAll :: "element \<Rightarrow> element list" where
  "querySelectorAll container = filter tagged (descendants container)"

subsection \<open>The component\<close>

record props =
  postId :: int
  siteId :: int
  selectedRevisionId :: js_id

record state =
  changeOffsets :: "rat list"
  scrollTop :: rat
  viewportHeight :: rat

datatype listener_target = OnWindow | OnNode

datatype effect =
    AddEventListener listener_target string
  | RemoveEventListener listener_target string
  | SetScrollTop jsnum
  | ScrollTo "element option" rat jsnum
  | RecordTracksEvent string string

record component =
  props :: props
  state :: state
  lastScolledRevisionId :: js_id
  node :: "element option"
  changesAboveViewport :: "rat list"
  changesBelowViewport :: "rat list"
  effects :: "effect list"

definition emit :: "effect \<Rightarrow> component \<Rightarrow> component" where
  "emit e c = c\<lparr>effects := effects c @ [e]\<rparr>"

text \<open>
  A new instance: the state initialiser, \<open>lastScolledRevisionId = null\<close>; \<open>this.node\<close>
  and the two cached lists are not yet assigned (lodash \<open>first\<close> and \<open>last\<close> read an
  unassigned list as they read the empty one).
\<close>

definition initial :: "props \<Rightarrow> component" where
  "initial p = \<lparr>props = p,
                state = \<lparr>changeOffsets = [], scrollTop = 0, viewportHeight = 0\<rparr>,
                lastScolledRevisionId = Null, node = None,
                changesAboveViewport = [], changesBelowViewport = [], effects = []\<rparr>"

subsection \<open>Rendering\<close>

text \<open>What \<open>render\<close> returns, as far as the hints go: the count each hint shows, if shown.\<close>

record view =
  hint_above :: "nat option"
  hint_below :: "nat option"

definition render :: "component \<Rightarrow> view \<times> component" where
  "render c =
     (let bottomBoundary = scrollTop (state c) + viewportHeight (state c);
          above = filter (\<lambda>offset. offset < scrollTop (state c)) (changeOffsets (state c));
          below = filter (\<lambda>offset. offset > bottomBoundary) (changeOffsets (state c));
          showHints = (viewportHeight (state c) > 470);
          countAbove = length above;
          countBelow = length below
      in (\<lparr>hint_above = (if showHints \<and> countAbove > 0 then Some countAbove else None),
           hint_below = (if showHints \<and> countBelow > 0 then Some countBelow else None)\<rparr>,
          c\<lparr>changesAboveViewport := above, changesBelowViewport := below\<rparr>))"

subsection \<open>Scrolling\<close>

text \<open>
  \<open>Math.max (0, offset - viewportHeight / 2)\<close>; an \<open>undefined\<close> offset makes the
  difference, and so the maximum, \<open>NaN\<close>.
\<close>

definition nextScrollTop :: "rat option \<Rightarrow> rat \<Rightarrow> jsnum" where
  "nextScrollTop offset vh =
     (case offset of None \<Rightarrow> NaN | Some x \<Rightarrow> Number (max 0 (x - vh / 2)))"

definition centerScrollingOnOffset :: "rat option \<Rightarrow> bool \<Rightarrow> component \<Rightarrow> error + component" where
  "centerScrollingOnOffset offset animated c =
     (let target = nextScrollTop offset (viewportHeight (state c))
      in if \<not> animated then
           (case node c of None \<Rightarrow> Inl TypeError
            | Some n \<Rightarrow> Inr (emit (SetScrollTop target) c))
         else Inr (emit (ScrollTo (node c) 0 target) c))"

text \<open>\<open>this.state.changeOffsets[ 0 ] || 0\<close>\<close>

definition firstOrZero :: "rat list \<Rightarrow> rat" where
  "firstOrZero offs = (case offs of [] \<Rightarrow> 0 | x # _ \<Rightarrow> (if x = 0 then 0 else x))"

text \<open>The two callbacks that \<open>recomputeChanges\<close> is given: \<open>null\<close> and the arrow function
  of \<open>tryScrollingToFirstChangeOrTop\<close>.\<close>

datatype callback = NoCallback | CenterOnFirstChange

fun invoke :: "callback \<Rightarrow> component \<Rightarrow> error + component" where
  "invoke NoCallback c = Inr c"
| "invoke CenterOnFirstChange c =
     centerScrollingOnOffset (Some (firstOrZero (changeOffsets (state c)))) False c"

text \<open>An auto-scroll is pending when the guard of \<open>tryScrollingToFirstChangeOrTop\<close>
  lets the call through.\<close>

definition pending :: "component \<Rightarrow> bool" where
  "pending c = (truthy (selectedRevisionId (props c))
              \<and> selectedRevisionId (props c) \<noteq> lastScolledRevisionId c)"

text \<open>
  \<open>setState (partial, callback)\<close> outside \<open>componentWillReceiveProps\<close>: React merges the
  partial state (here a function on the state), renders, calls \<open>componentDidUpdate\<close> and
  then the callback. The model runs this update at the call. React runs it at the call
  for a \<open>setState\<close> in a listener or a timer, and at the end of the running lifecycle
  method for a \<open>setState\<close> inside one; the only statement of the component that stands
  between the two moments is the registration of the resize listener in
  \<open>componentDidMount\<close>, which reads and writes nothing the update uses. A
  \<open>PureComponent\<close> skips the render of an update that leaves props and state shallowly
  equal; the model renders always, and a render of an unchanged state changes nothing.

  The recursion ends because \<open>tryScrollingToFirstChangeOrTop\<close> stores the revision id
  before it recomputes: the \<open>componentDidUpdate\<close> of its own update finds nothing to do.
\<close>

function tryScrollingToFirstChangeOrTop :: "component \<Rightarrow> error + component"
  and recomputeChanges :: "callback \<Rightarrow> component \<Rightarrow> error + component"
  and setState :: "(state \<Rightarrow> state) \<Rightarrow> callback \<Rightarrow> component \<Rightarrow> error + component"
  and componentDidUpdate :: "component \<Rightarrow> error + component"
where
  "tryScrollingToFirstChangeOrTop c =
     (if \<not> truthy (selectedRevisionId (props c))
         \<or> selectedRevisionId (props c) = lastScolledRevisionId c
      then Inr c
      else recomputeChanges CenterOnFirstChange
             (c\<lparr>lastScolledRevisionId := selectedRevisionId (props c)\<rparr>))"
| "recomputeChanges cb c =
     (case node c of None \<Rightarrow> Inl TypeError
      | Some n \<Rightarrow>
          setState (\<lambda>s. s\<lparr>changeOffsets := map getCenterOffset (querySelectorAll n),
                          viewportHeight := get (Some n) offsetHeight 0,
                          scrollTop := get (Some n) dom_scrollTop 0\<rparr>) cb c)"
| "setState f cb c =
     (case componentDidUpdate (snd (render (c\<lparr>state := f (state c)\<rparr>))) of
        Inl e \<Rightarrow> Inl e
      | Inr c' \<Rightarrow> invoke cb c')"
| "componentDidUpdate c = tryScrollingToFirstChangeOrTop c"
  by pat_completeness auto

lemma render_frame [simp]:
  "props (snd (render c)) = props c"
  "state (snd (render c)) = state c"
  "lastScolledRevisionId (snd (render c)) = lastScolledRevisionId c"
  "node (snd (render c)) = node c"
  "effects (snd (render c)) = effects c"
  by (simp_all add: render_def Let_def)

termination tryScrollingToFirstChangeOrTop
proof (relation "measure (\<lambda>x. case x of
          Inl (Inl c) \<Rightarrow> 4 * (if pending c then 1 else 0)
        | Inl (Inr (cb, c)) \<Rightarrow> 4 * (if pending c then 1 else 0) + 3
        | Inr (Inl (f, cb, c)) \<Rightarrow> 4 * (if pending c then 1 else 0) + 2
        | Inr (Inr c) \<Rightarrow> 4 * (if pending c then 1 else 0) + 1)")
  show "wf (measure (\<lambda>x. case x of
          Inl (Inl c) \<Rightarrow> 4 * (if pending c then 1 else 0)
        | Inl (Inr (cb, c)) \<Rightarrow> 4 * (if pending c then 1 else 0) + 3
        | Inr (Inl (f, cb, c)) \<Rightarrow> 4 * (if pending c then 1 else 0) + 2
        | Inr (Inr c) \<Rightarrow> 4 * (if pending c then 1 else 0) + (1::nat)))"
    by simp
qed (auto simp: pending_def)

declare tryScrollingToFirstChangeOrTop.simps [simp del]
declare recomputeChanges.simps [simp del]
declare setState.simps [simp del]
declare componentDidUpdate.simps [simp del]

subsection \<open>Lifecycle methods and handlers\<close>

text \<open>The parameter \<open>hasWindow\<close> is \<open>typeof window !== 'undefined'\<close>.\<close>

definition componentDidMount :: "bool \<Rightarrow> component \<Rightarrow> error + component" where
  "componentDidMount hasWindow c =
     (case tryScrollingToFirstChangeOrTop c of
        Inl e \<Rightarrow> Inl e
      | Inr c' \<Rightarrow>
          Inr (if hasWindow then emit (AddEventListener OnWindow ''resize'') c' else c'))"

definition componentWillUnmount :: "bool \<Rightarrow> component \<Rightarrow> component" where
  "componentWillUnmount hasWindow c =
     (if hasWindow then emit (RemoveEventListener OnWindow ''resize'') c else c)"

text \<open>
  A \<open>setState\<close> inside \<open>componentWillReceiveProps\<close> is merged into the state that the
  coming render sees; it starts no update of its own.
\<close>

definition componentWillReceiveProps :: "props \<Rightarrow> component \<Rightarrow> component" where
  "componentWillReceiveProps nextProps c =
     (if selectedRevisionId nextProps \<noteq> selectedRevisionId (props c)
      then c\<lparr>state := (state c)\<lparr>changeOffsets := []\<rparr>\<rparr>
      else c)"

record event =
  target :: "element option"

definition handleScroll :: "event \<Rightarrow> component \<Rightarrow> error + component" where
  "handleScroll e c =
     setState (\<lambda>s. s\<lparr>scrollTop := get (target e) dom_scrollTop 0\<rparr>) NoCallback c"

definition handleScrollableRef :: "element option \<Rightarrow> component \<Rightarrow> error + component" where
  "handleScrollableRef nodeArg c =
     (case nodeArg of
        Some n \<Rightarrow> Inr (emit (AddEventListener OnNode ''scroll'') (c\<lparr>node := Some n\<rparr>))
      | None \<Rightarrow>
          (case node c of
             None \<Rightarrow> Inl TypeError
           | Some n \<Rightarrow> Inr ((emit (RemoveEventListener OnNode ''scroll'') c)\<lparr>node := None\<rparr>)))"

text \<open>lodash \<open>last\<close> and \<open>first\<close>: \<open>undefined\<close> on an empty array.\<close>

definition lodash_last :: "'a list \<Rightarrow> 'a option" where
  "lodash_last xs = (if xs = [] then None else Some (last xs))"

definition lodash_first :: "'a list \<Rightarrow> 'a option" where
  "lodash_first xs = (case xs of [] \<Rightarrow> None | x # _ \<Rightarrow> Some x)"

definition scrollAbove :: "component \<Rightarrow> error + component" where
  "scrollAbove c =
     (case centerScrollingOnOffset (lodash_last (changesAboveViewport c)) True c of
        Inl e \<Rightarrow> Inl e
      | Inr c' \<Rightarrow>
          Inr (emit (RecordTracksEvent ''calypso_editor_post_revisions_scroll_hint_used''
                       ''above'') c'))"

definition scrollBelow :: "component \<Rightarrow> error + component" where
  "scrollBelow c =
     (case centerScrollingOnOffset (lodash_first (changesBelowViewport c)) True c of
        Inl e \<Rightarrow> Inl e
      | Inr c' \<Rightarrow>
          Inr (emit (RecordTracksEvent ''calypso_editor_post_revisions_scroll_hint_used''
                       ''below'') c'))"

subsection \<open>What React drives\<close>

text \<open>
  Mounting: the first render, the ref callback with the container, then
  \<open>componentDidMount\<close>. New props: \<open>componentWillReceiveProps\<close>, the render with the new
  props, then \<open>componentDidUpdate\<close>. Unmounting: \<open>componentWillUnmount\<close>, then the ref
  callback with \<open>null\<close>.
\<close>

definition mount :: "bool \<Rightarrow> props \<Rightarrow> element \<Rightarrow> error + component" where
  "mount hasWindow p n =
     (case handleScrollableRef (Some n) (snd (render (initial p))) of
        Inl e \<Rightarrow> Inl e
      | Inr c \<Rightarrow> componentDidMount hasWindow c)"

definition receiveProps :: "props \<Rightarrow> component \<Rightarrow> error + component" where
  "receiveProps nextProps c =
     componentDidUpdate
       (snd (render ((componentWillReceiveProps nextProps c)\<lparr>props := nextProps\<rparr>)))"

definition unmount :: "bool \<Rightarrow> component \<Rightarrow> error + component" where
  "unmount hasWindow c = handleScrollableRef None (componentWillUnmount hasWindow c)"

text \<open>A sequence of lifecycle notifications on one instance, each after a render.\<close>

datatype lifecycle = DidMount | DidUpdate

fun notify :: "bool \<Rightarrow> lifecycle \<Rightarrow> component \<Rightarrow> error + component" where
  "notify hasWindow DidMount c = componentDidMount hasWindow (snd (render c))"
| "notify hasWindow DidUpdate c = componentDidUpdate (snd (render c))"

fun run :: "bool \<Rightarrow> lifecycle list \<Rightarrow> component \<Rightarrow> error + component" where
  "run hasWindow [] c = Inr c"
| "run hasWindow (e # es) c =
     (case notify hasWindow e c of Inl x \<Rightarrow> Inl x | Inr c' \<Rightarrow> run hasWindow es c')"

text \<open>The targets of the instant scrolls in a trace, in order.\<close>

fun instantScrolls :: "effect list \<Rightarrow> jsnum list" where
  "instantScrolls [] = []"
| "instantScrolls (SetScrollTop t # es) = t # instantScrolls es"
| "instantScrolls (_ # es) = instantScrolls es"

subsection \<open>The rate-limited handlers\<close>









subsection \<open>The states of a mounted component\<close>

text \<open>
  What a mounted instance can go through before it is unmounted: new props, scroll
  events, the recompute that a resize ends in, clicks on the hints, and the browser
  laying the container out anew.
\<close>

inductive reachable :: "component \<Rightarrow> bool" where
  by_mount: "mount hasWindow p n = Inr c \<Longrightarrow> reachable c"
| by_props: "reachable c \<Longrightarrow> receiveProps nextProps c = Inr c' \<Longrightarrow> reachable c'"
| by_scroll: "reachable c \<Longrightarrow> handleScroll e c = Inr c' \<Longrightarrow> reachable c'"
| by_resize: "reachable c \<Longrightarrow> recomputeChanges NoCallback c = Inr c' \<Longrightarrow> reachable c'"
| by_scrollAbove: "reachable c \<Longrightarrow> scrollAbove c = Inr c' \<Longrightarrow> reachable c'"
| by_scrollBelow: "reachable c \<Longrightarrow> scrollBelow c = Inr c' \<Longrightarrow> reachable c'"
| by_layout: "reachable c \<Longrightarrow> node c = Some n \<Longrightarrow> reachable (c\<lparr>node := Some n'\<rparr>)"

text \<open>How often the scroll listener was attached to and detached from the container.\<close>

definition scrollListeners :: "component \<Rightarrow> nat \<times> nat" where
  "scrollListeners c =
     (count_list (effects c) (AddEventListener OnNode ''scroll''),
      count_list (effects c) (RemoveEventListener OnNode ''scroll''))"

text \<open>The cached lists are those of a render of the current state.\<close>

definition rendered :: "component \<Rightarrow> bool" where
  "rendered c =
     (changesAboveViewport c
        = filter (\<lambda>x. x < scrollTop (state c)) (changeOffsets (state c))
      \<and> changesBelowViewport c
        = filter (\<lambda>x. scrollTop (state c) + viewportHeight (state c) < x)
            (changeOffsets (state c)))"

text \<open>The invariant of the states of a mounted component.\<close>

definition settled :: "component \<Rightarrow> bool" where
  "settled c = (node c \<noteq> None \<and> \<not> pending c \<and> rendered c
               \<and> scrollListeners c = (1, 0))"

text \<open>
  The state that a recompute reads from a container, and the scroll position that the
  auto-scroll then writes.
\<close>

definition recomputed :: "element \<Rightarrow> state" where
  "recomputed n = \<lparr>changeOffsets = map getCenterOffset (querySelectorAll n),
                    scrollTop = get (Some n) dom_scrollTop 0,
                    viewportHeight = get (Some n) offsetHeight 0\<rparr>"

definition firstTarget :: "element \<Rightarrow> jsnum" where
  "firstTarget n =
     Number (max 0 (firstOrZero (map getCenterOffset (querySelectorAll n))
                    - get (Some n) offsetHeight 0 / 2))"

subsection \<open>Sample inputs\<close>

definition sample_props :: props where
  "sample_props = \<lparr>postId = 7, siteId = 1, selectedRevisionId = Num 42\<rparr>"

definition sample_region :: "string \<Rightarrow> rat \<Rightarrow> rat \<Rightarrow> element" where
  "sample_region cls t h = Element [cls] (Some t) (Some h) None []"

text \<open>A container 200 high with an untagged title and two tagged regions in its content.\<close>

definition sample_container :: element where
  "sample_container =
     Element [''editor-diff-viewer__scrollable''] (Some 0) (Some 200) (Some 0)
       [Element [''editor-diff-viewer__title''] (Some 0) (Some 40) None [],
        Element [''editor-diff-viewer__content''] (Some 40) (Some 900) None
          [sample_region ''text-diff__additions'' 280 40,
           sample_region ''text-diff__deletions'' 600 20]]"

definition sample_component :: "rat list \<Rightarrow> rat \<Rightarrow> rat \<Rightarrow> component" where
  "sample_component offs st vh =
     \<lparr>props = sample_props,
      state = \<lparr>changeOffsets = offs, scrollTop = st, viewportHeight = vh\<rparr>,
      lastScolledRevisionId = Num 42, node = Some sample_container,
      changesAboveViewport = [], changesBelowViewport = [], effects = []\<rparr>"

definition sample_detached :: element where
  "sample_detached =
     Element [] None None None [Element [''text-diff__deletions''] None None None []]"

definition sample_untagged :: element where
  "sample_untagged =
     Element [] None None None [Element [''text-diff''] (Some 5) (Some 6) None []]"

definition sample_unscrolled :: "js_id \<Rightarrow> component" where
  "sample_unscrolled r =
     (initial (sample_props\<lparr>selectedRevisionId := r\<rparr>))\<lparr>node := Some sample_container\<rparr>"


section \<open>Basic facts\<close>

lemma not_pending_try:
  "\<not> pending c \<Longrightarrow> tryScrollingToFirstChangeOrTop c = Inr c"
  by (subst tryScrollingToFirstChangeOrTop.simps) (auto simp: pending_def)

lemma not_pending_didUpdate:
  "\<not> pending c \<Longrightarrow> componentDidUpdate c = Inr c"
  by (simp add: componentDidUpdate.simps not_pending_try)

lemma not_pending_setState:
  "\<not> pending c \<Longrightarrow> setState f cb c = invoke cb (snd (render (c\<lparr>state := f (state c)\<rparr>)))"
  by (subst setState.simps) (simp add: not_pending_didUpdate pending_def)

lemma state_replaced:
  "(s::state)\<lparr>changeOffsets := a, viewportHeight := b, scrollTop := t\<rparr> =
   \<lparr>changeOffsets = a, scrollTop = t, viewportHeight = b\<rparr>"
  by (cases s) simp

lemma not_pending_recompute:
  "\<not> pending c \<Longrightarrow> node c = Some n \<Longrightarrow>
   recomputeChanges cb c = invoke cb (snd (render (c\<lparr>state := recomputed n\<rparr>)))"
  by (subst recomputeChanges.simps)
     (simp add: not_pending_setState recomputed_def state_replaced)

lemma recompute_no_node:
  "node c = None \<Longrightarrow> recomputeChanges cb c = Inl TypeError"
  by (subst recomputeChanges.simps) simp

lemma pending_try_no_node:
  "pending c \<Longrightarrow> node c = None \<Longrightarrow> tryScrollingToFirstChangeOrTop c = Inl TypeError"
  by (subst tryScrollingToFirstChangeOrTop.simps) (auto simp: pending_def recompute_no_node)

lemma pending_try:
  "pending c \<Longrightarrow> node c = Some n \<Longrightarrow>
   tryScrollingToFirstChangeOrTop c =
     Inr (emit (SetScrollTop (firstTarget n))
           (snd (render (c\<lparr>lastScolledRevisionId := selectedRevisionId (props c),
                              state := recomputed n\<rparr>))))"
  apply (subst tryScrollingToFirstChangeOrTop.simps)
  apply (simp add: pending_def)
  apply (subst not_pending_recompute [where n = n])
    apply (simp_all add: pending_def centerScrollingOnOffset_def nextScrollTop_def
      firstTarget_def recomputed_def)
  done

lemma emit_frame [simp]:
  "props (emit e c) = props c"
  "state (emit e c) = state c"
  "lastScolledRevisionId (emit e c) = lastScolledRevisionId c"
  "node (emit e c) = node c"
  "changesAboveViewport (emit e c) = changesAboveViewport c"
  "changesBelowViewport (emit e c) = changesBelowViewport c"
  "effects (emit e c) = effects c @ [e]"
  by (simp_all add: emit_def)

lemma invoke_result:
  "node c = Some n \<Longrightarrow>
   invoke cb c = Inr (case cb of NoCallback \<Rightarrow> c
     | CenterOnFirstChange \<Rightarrow>
         emit (SetScrollTop (Number (max 0 (firstOrZero (changeOffsets (state c))
                                            - viewportHeight (state c) / 2)))) c)"
  by (cases cb) (simp_all add: centerScrollingOnOffset_def nextScrollTop_def)

lemma render_lists:
  "changesAboveViewport (snd (render c)) =
     filter (\<lambda>x. x < scrollTop (state c)) (changeOffsets (state c))"
  "changesBelowViewport (snd (render c)) =
     filter (\<lambda>x. scrollTop (state c) + viewportHeight (state c) < x) (changeOffsets (state c))"
  by (simp_all add: render_def Let_def)

lemma firstTarget_recomputed:
  "Number (max 0 (firstOrZero (changeOffsets (recomputed n)) - viewportHeight (recomputed n) / 2))
     = firstTarget n"
  by (simp add: firstTarget_def recomputed_def)

lemma invoke_after_recompute:
  assumes "node c = Some n" "state c = recomputed n"
  shows "invoke cb c = Inr (case cb of NoCallback \<Rightarrow> c
     | CenterOnFirstChange \<Rightarrow> emit (SetScrollTop (firstTarget n)) c)"
  using assms
  by (cases cb) (simp_all add: invoke_result firstTarget_recomputed del: invoke.simps)

lemma recompute_unfold:
  assumes "node c = Some n"
  shows "recomputeChanges cb c =
        (case tryScrollingToFirstChangeOrTop (snd (render (c\<lparr>state := recomputed n\<rparr>))) of
           Inl e \<Rightarrow> Inl e | Inr c' \<Rightarrow> invoke cb c')"
  using assms
  by (simp add: recomputeChanges.simps setState.simps componentDidUpdate.simps
      recomputed_def state_replaced)

lemma recompute_result:
  assumes "node c = Some n"
  shows "\<exists>c'. recomputeChanges cb c = Inr c' \<and> state c' = recomputed n \<and> node c' = Some n
           \<and> props c' = props c \<and> \<not> pending c'
           \<and> lastScolledRevisionId c' =
               (if pending c then selectedRevisionId (props c) else lastScolledRevisionId c)
           \<and> effects c' = effects c
               @ (if pending c then [SetScrollTop (firstTarget n)] else [])
               @ (case cb of NoCallback \<Rightarrow> [] | CenterOnFirstChange \<Rightarrow> [SetScrollTop (firstTarget n)])
           \<and> changesAboveViewport c' = changesAboveViewport (snd (render (c\<lparr>state := recomputed n\<rparr>)))
           \<and> changesBelowViewport c' = changesBelowViewport (snd (render (c\<lparr>state := recomputed n\<rparr>)))"
proof -
  let ?c1 = "snd (render (c\<lparr>state := recomputed n\<rparr>))"
  have n1: "node ?c1 = Some n" using assms by simp
  have s1: "state ?c1 = recomputed n" by simp
  show ?thesis
  proof (cases "pending c")
    case False
    then have "\<not> pending ?c1" by (simp add: pending_def)
    then have "recomputeChanges cb c = invoke cb ?c1"
      by (simp add: recompute_unfold [OF assms] not_pending_try)
    also have "\<dots> = Inr (case cb of NoCallback \<Rightarrow> ?c1
         | CenterOnFirstChange \<Rightarrow> emit (SetScrollTop (firstTarget n)) ?c1)"
      by (rule invoke_after_recompute [OF n1 s1])
    finally show ?thesis using False assms
      by (cases cb) (simp_all add: pending_def)
  next
    case True
    define c2 where "c2 = snd (render (?c1\<lparr>lastScolledRevisionId := selectedRevisionId (props ?c1),
                                  state := recomputed n\<rparr>))"
    define c3 where "c3 = emit (SetScrollTop (firstTarget n)) c2"
    have p1: "pending ?c1" using True by (simp add: pending_def)
    have n3: "node c3 = Some n" using assms by (simp add: c3_def c2_def)
    have s3: "state c3 = recomputed n" by (simp add: c3_def c2_def)
    have "tryScrollingToFirstChangeOrTop ?c1 = Inr c3"
      unfolding c3_def c2_def by (rule pending_try [OF p1 n1])
    then have "recomputeChanges cb c = invoke cb c3"
      by (simp add: recompute_unfold [OF assms] del: invoke.simps)
    also have "\<dots> = Inr (case cb of NoCallback \<Rightarrow> c3
         | CenterOnFirstChange \<Rightarrow> emit (SetScrollTop (firstTarget n)) c3)"
      by (rule invoke_after_recompute [OF n3 s3])
    finally show ?thesis using True assms
      by (cases cb) (simp_all add: pending_def render_lists c3_def c2_def)
  qed
qed

lemma rendered_render [simp]: "rendered (snd (render c))"
  by (simp add: rendered_def render_lists)

lemma rendered_emit [simp]: "rendered (emit e c) = rendered c"
  by (simp add: rendered_def)

lemma try_result:
  assumes "node c = Some n"
  shows "\<exists>c'. tryScrollingToFirstChangeOrTop c = Inr c' \<and> node c' = Some n
           \<and> props c' = props c \<and> \<not> pending c'
           \<and> (rendered c \<longrightarrow> rendered c')
           \<and> state c' = (if pending c then recomputed n else state c)
           \<and> lastScolledRevisionId c' =
               (if pending c then selectedRevisionId (props c) else lastScolledRevisionId c)
           \<and> effects c' = effects c @ (if pending c then [SetScrollTop (firstTarget n)] else [])"
proof (cases "pending c")
  case True
  show ?thesis using assms True
    by (simp add: pending_try [OF True assms] pending_def)
next
  case False
  then show ?thesis using assms by (simp add: not_pending_try)
qed

lemma mount_result:
  "\<exists>c. mount hasWindow p n = Inr c \<and> settled c \<and> node c = Some n \<and> props c = p
       \<and> state c = (if truthy (selectedRevisionId p) then recomputed n
                     else \<lparr>changeOffsets = [], scrollTop = 0, viewportHeight = 0\<rparr>)
       \<and> effects c = AddEventListener OnNode ''scroll''
            # (if truthy (selectedRevisionId p) then [SetScrollTop (firstTarget n)] else [])
            @ (if hasWindow then [AddEventListener OnWindow ''resize''] else [])"
proof -
  define c1 where "c1 = emit (AddEventListener OnNode ''scroll'')
                          ((snd (render (initial p)))\<lparr>node := Some n\<rparr>)"
  have n1: "node c1 = Some n" by (simp add: c1_def)
  have r1: "rendered c1" by (simp add: c1_def rendered_def render_lists)
  have p1: "pending c1 = truthy (selectedRevisionId p)"
    by (cases "selectedRevisionId p") (simp_all add: c1_def pending_def initial_def)
  have e1: "effects c1 = [AddEventListener OnNode ''scroll'']"
    by (simp add: c1_def initial_def)
  have pr1: "props c1 = p" by (simp add: c1_def initial_def)
  obtain c2 where t: "tryScrollingToFirstChangeOrTop c1 = Inr c2" and n2: "node c2 = Some n"
    and p2: "\<not> pending c2" and r2: "rendered c2" and pr2: "props c2 = props c1"
    and s2: "state c2 = (if pending c1 then recomputed n else state c1)"
    and e2: "effects c2 = effects c1
               @ (if pending c1 then [SetScrollTop (firstTarget n)] else [])"
    using try_result [OF n1] r1 by blast
  have s1: "state c1 = \<lparr>changeOffsets = [], scrollTop = 0, viewportHeight = 0\<rparr>"
    by (simp add: c1_def initial_def)
  have m: "mount hasWindow p n =
             Inr (if hasWindow then emit (AddEventListener OnWindow ''resize'') c2 else c2)"
    by (simp add: mount_def handleScrollableRef_def componentDidMount_def c1_def [symmetric] t)
  show ?thesis
    using n2 p2 r2 e2 e1 p1 pr1 pr2 s1 s2
    by (simp add: m settled_def scrollListeners_def pending_def)
qed

lemma receiveProps_result:
  assumes "node c = Some n"
  shows "\<exists>c'. receiveProps nextProps c = Inr c' \<and> node c' = Some n \<and> props c' = nextProps
           \<and> \<not> pending c' \<and> rendered c'
           \<and> state c' =
               (if truthy (selectedRevisionId nextProps)
                   \<and> selectedRevisionId nextProps \<noteq> lastScolledRevisionId c
                then recomputed n
                else state (componentWillReceiveProps nextProps c))
           \<and> effects c' = effects c
               @ (if truthy (selectedRevisionId nextProps)
                     \<and> selectedRevisionId nextProps \<noteq> lastScolledRevisionId c
                  then [SetScrollTop (firstTarget n)] else [])"
proof -
  define c1 where
    "c1 = snd (render ((componentWillReceiveProps nextProps c)\<lparr>props := nextProps\<rparr>))"
  have n1: "node c1 = Some n" using assms by (simp add: c1_def componentWillReceiveProps_def)
  have r1: "rendered c1" by (simp add: c1_def)
  have pr1: "props c1 = nextProps" by (simp add: c1_def)
  have e1: "effects c1 = effects c" by (simp add: c1_def componentWillReceiveProps_def)
  have p1: "pending c1 = (truthy (selectedRevisionId nextProps)
                     \<and> selectedRevisionId nextProps \<noteq> lastScolledRevisionId c)"
    by (simp add: c1_def pending_def componentWillReceiveProps_def)
  obtain c2 where t: "tryScrollingToFirstChangeOrTop c1 = Inr c2" and n2: "node c2 = Some n"
    and p2: "\<not> pending c2" and r2: "rendered c2" and pr2: "props c2 = props c1"
    and s2: "state c2 = (if pending c1 then recomputed n else state c1)"
    and e2: "effects c2 = effects c1
               @ (if pending c1 then [SetScrollTop (firstTarget n)] else [])"
    using try_result [OF n1] r1 by blast
  have s1: "state c1 = state (componentWillReceiveProps nextProps c)"
    by (simp add: c1_def)
  have "receiveProps nextProps c = Inr c2"
    by (simp add: receiveProps_def componentDidUpdate.simps c1_def [symmetric] t)
  then show ?thesis using n2 p2 r2 pr2 pr1 e2 e1 p1 s1 s2 by simp
qed

lemma handleScroll_result:
  assumes "\<not> pending c"
  shows "handleScroll e c =
           Inr (snd (render (c\<lparr>state := (state c)\<lparr>scrollTop := get (target e) dom_scrollTop 0\<rparr>\<rparr>)))"
  using assms by (simp add: handleScroll_def not_pending_setState)

lemma scrollAbove_result:
  "scrollAbove c =
     Inr (emit (RecordTracksEvent ''calypso_editor_post_revisions_scroll_hint_used'' ''above'')
           (emit (ScrollTo (node c) 0
                    (nextScrollTop (lodash_last (changesAboveViewport c))
                       (viewportHeight (state c)))) c))"
  by (simp add: scrollAbove_def centerScrollingOnOffset_def)

lemma scrollBelow_result:
  "scrollBelow c =
     Inr (emit (RecordTracksEvent ''calypso_editor_post_revisions_scroll_hint_used'' ''below'')
           (emit (ScrollTo (node c) 0
                    (nextScrollTop (lodash_first (changesBelowViewport c))
                       (viewportHeight (state c)))) c))"
  by (simp add: scrollBelow_def centerScrollingOnOffset_def)

lemma reachable_settled: "reachable c \<Longrightarrow> settled c"
proof (induction rule: reachable.induct)
  case (by_mount hasWindow p n c)
  then show ?case using mount_result [of hasWindow p n] by auto
next
  case (by_props c nextProps c')
  then obtain n where n: "node c = Some n" by (auto simp: settled_def)
  from by_props have np: "\<not> pending c" by (simp add: settled_def)
  show ?case
    using receiveProps_result [OF n, of nextProps] by_props np
    by (auto simp: settled_def scrollListeners_def pending_def)
next
  case (by_scroll c e c')
  then show ?case
    by (auto simp: settled_def handleScroll_result scrollListeners_def pending_def)
next
  case (by_resize c c')
  then obtain n where n: "node c = Some n" by (auto simp: settled_def)
  show ?case
    using recompute_result [OF n, of NoCallback] by_resize
    by (auto simp: settled_def scrollListeners_def rendered_def render_lists)
next
  case (by_scrollAbove c c')
  then show ?case
    by (auto simp: settled_def scrollAbove_result scrollListeners_def pending_def)
next
  case (by_scrollBelow c c')
  then show ?case
    by (auto simp: settled_def scrollBelow_result scrollListeners_def pending_def)
next
  case (by_layout c n n')
  then show ?case
    by (auto simp: settled_def scrollListeners_def pending_def rendered_def)
qed

lemma unmount_result:
  assumes "node c = Some n"
  shows "unmount hasWindow c =
     Inr ((emit (RemoveEventListener OnNode ''scroll'')
            (componentWillUnmount hasWindow c))\<lparr>node := None\<rparr>)"
  using assms by (simp add: unmount_def handleScrollableRef_def componentWillUnmount_def)

lemma sorted_last_Max:
  fixes xs :: "rat list"
  assumes "sorted xs" "xs \<noteq> []"
  shows "last xs = Max (set xs)"
proof -
  have "\<forall>y \<in> set xs. y \<le> last xs"
    using assms by (induction xs) (auto split: if_splits)
  then show ?thesis using assms by (intro Max_eqI [symmetric]) auto
qed

lemma sorted_hd_Min:
  fixes xs :: "rat list"
  assumes "sorted xs" "xs \<noteq> []"
  shows "hd xs = Min (set xs)"
  using assms by (cases xs) (auto intro!: Min_eqI [symmetric])

lemma lodash_first_hd: "lodash_first xs = (if xs = [] then None else Some (hd xs))"
  by (cases xs) (simp_all add: lodash_first_def)

lemma instantScrolls_append:
  "instantScrolls (xs @ ys) = instantScrolls xs @ instantScrolls ys"
  by (induction xs rule: instantScrolls.induct) simp_all

lemma notify_result:
  assumes "node c = Some n"
  shows "\<exists>c'. notify hasWindow e c = Inr c' \<and> node c' = Some n \<and> props c' = props c
           \<and> \<not> pending c'
           \<and> state c' = (if pending c then recomputed n else state c)
           \<and> lastScolledRevisionId c' =
               (if pending c then selectedRevisionId (props c) else lastScolledRevisionId c)
           \<and> instantScrolls (effects c') =
               instantScrolls (effects c) @ (if pending c then [firstTarget n] else [])"
proof -
  let ?c0 = "snd (render c)"
  have n0: "node ?c0 = Some n" using assms by simp
  have p0: "pending ?c0 = pending c" by (simp add: pending_def)
  obtain c1 where t: "tryScrollingToFirstChangeOrTop ?c0 = Inr c1" and n1: "node c1 = Some n"
    and p1: "\<not> pending c1" and pr1: "props c1 = props ?c0"
    and s1: "state c1 = (if pending ?c0 then recomputed n else state ?c0)"
    and l1: "lastScolledRevisionId c1 =
               (if pending ?c0 then selectedRevisionId (props ?c0) else lastScolledRevisionId ?c0)"
    and e1: "effects c1 = effects ?c0 @ (if pending ?c0 then [SetScrollTop (firstTarget n)] else [])"
    using try_result [OF n0] by blast
  show ?thesis
  proof (cases e)
    case DidMount
    then show ?thesis using t n1 p1 pr1 s1 l1 e1 p0
      by (simp add: componentDidMount_def instantScrolls_append pending_def)
  next
    case DidUpdate
    then show ?thesis using t n1 p1 pr1 s1 l1 e1 p0
      by (simp add: componentDidUpdate.simps instantScrolls_append)
  qed
qed

lemma notify_idle:
  assumes "\<not> pending c"
  shows "\<exists>c'. notify hasWindow e c = Inr c' \<and> node c' = node c \<and> props c' = props c
           \<and> state c' = state c
           \<and> lastScolledRevisionId c' = lastScolledRevisionId c
           \<and> instantScrolls (effects c') = instantScrolls (effects c)"
proof -
  have "\<not> pending (snd (render c))" using assms by (simp add: pending_def)
  then have t: "tryScrollingToFirstChangeOrTop (snd (render c)) = Inr (snd (render c))"
    by (rule not_pending_try)
  show ?thesis
    by (cases e)
       (simp_all add: componentDidMount_def componentDidUpdate.simps t instantScrolls_append)
qed

lemma run_idle:
  assumes "\<not> pending c"
  shows "\<exists>c'. run hasWindow es c = Inr c' \<and> node c' = node c \<and> props c' = props c
           \<and> state c' = state c
           \<and> lastScolledRevisionId c' = lastScolledRevisionId c
           \<and> instantScrolls (effects c') = instantScrolls (effects c)"
  using assms
proof (induction es arbitrary: c)
  case Nil
  then show ?case by simp
next
  case (Cons e es)
  obtain c1 where n: "notify hasWindow e c = Inr c1" and f: "node c1 = node c"
      "props c1 = props c" "state c1 = state c"
      "lastScolledRevisionId c1 = lastScolledRevisionId c"
      "instantScrolls (effects c1) = instantScrolls (effects c)"
    using notify_idle [OF Cons.prems] by blast
  have "\<not> pending c1" using Cons.prems f by (simp add: pending_def)
  from Cons.IH [OF this] show ?case using n f by auto
qed

lemma firstOrZero_first: "firstOrZero offs = (case offs of [] \<Rightarrow> 0 | x # _ \<Rightarrow> x)"
  by (simp add: firstOrZero_def split: list.splits)







subsection \<open>The samples evaluated\<close>

lemma sample_regions:
  "filter tagged (descendants sample_container)
     = [sample_region ''text-diff__additions'' 280 40, sample_region ''text-diff__deletions'' 600 20]"
  by (simp add: sample_container_def sample_region_def tagged_def)

lemma sample_recomputed:
  "recomputed sample_container =
     \<lparr>changeOffsets = [300, 610], scrollTop = 0, viewportHeight = 200\<rparr>"
  by (simp add: recomputed_def querySelectorAll_def sample_regions getCenterOffset_def get_def
      sample_region_def)
     (simp add: sample_container_def)

lemma sample_offsets:
  "map getCenterOffset (querySelectorAll sample_container) = [300, 610]"
  "offsetHeight sample_container = Some 200"
  using sample_recomputed by (simp_all add: recomputed_def sample_container_def)

section \<open>Properties\<close>

text \<open>
  C3. The render-time derivation keeps in \<open>changesAboveViewport\<close> exactly the offsets
  strictly less than \<open>scrollTop\<close> and in \<open>changesBelowViewport\<close> exactly the offsets strictly
  greater than \<open>scrollTop + viewportHeight\<close>, both in the order of \<open>changeOffsets\<close>. With a
  viewport height that is not negative, an offset equal to \<open>scrollTop\<close> or to
  \<open>scrollTop + viewportHeight\<close> is in neither list.
\<close>

theorem above_below_partition:
  fixes c :: component
  defines "st \<equiv> scrollTop (state c)"
    and "vh \<equiv> viewportHeight (state c)"
    and "offs \<equiv> changeOffsets (state c)"
    and "abv \<equiv> changesAboveViewport (snd (render c))"
    and "blw \<equiv> changesBelowViewport (snd (render c))"
  shows "abv = filter (\<lambda>x. x < st) offs
       \<and> blw = filter (\<lambda>x. st + vh < x) offs
       \<and> set abv = {x. x \<in> set offs \<and> x < st}
       \<and> set blw = {x. x \<in> set offs \<and> st + vh < x}
       \<and> (0 \<le> vh \<longrightarrow> st \<notin> set abv \<and> st \<notin> set blw
                      \<and> st + vh \<notin> set abv \<and> st + vh \<notin> set blw)"
  unfolding st_def vh_def offs_def abv_def blw_def
  by (auto simp: render_def Let_def)

theorem above_below_partition_witness:
  "changesAboveViewport (snd (render (sample_component [10, 50, 100, 120, 400, 900] 100 300)))
     = [10, 50]
   \<and> changesBelowViewport (snd (render (sample_component [10, 50, 100, 120, 400, 900] 100 300)))
     = [900]
   \<and> (0::rat) \<le> 300
   \<and> 100 \<notin> set (changesAboveViewport
                     (snd (render (sample_component [10, 50, 100, 120, 400, 900] 100 300))))
   \<and> 400 \<notin> set (changesBelowViewport
                     (snd (render (sample_component [10, 50, 100, 120, 400, 900] 100 300))))"
  using above_below_partition [of "sample_component [10, 50, 100, 120, 400, 900] 100 300"]
  by (simp add: sample_component_def)

text \<open>
  C7. A hint is shown exactly when \<open>viewportHeight\<close> is strictly greater than 470 and its
  list is not empty, and it then shows the length of the list. At 470 both hints are
  suppressed; at 471 each is shown when its list is not empty.
\<close>

theorem hint_threshold:
  fixes c :: component
  defines "vh \<equiv> viewportHeight (state c)"
    and "abv \<equiv> changesAboveViewport (snd (render c))"
    and "blw \<equiv> changesBelowViewport (snd (render c))"
    and "v \<equiv> fst (render c)"
  shows "(hint_above v \<noteq> None) = (470 < vh \<and> abv \<noteq> [])
       \<and> (hint_below v \<noteq> None) = (470 < vh \<and> blw \<noteq> [])
       \<and> (hint_above v \<noteq> None \<longrightarrow> hint_above v = Some (length abv))
       \<and> (hint_below v \<noteq> None \<longrightarrow> hint_below v = Some (length blw))
       \<and> (vh = 470 \<longrightarrow> hint_above v = None \<and> hint_below v = None)
       \<and> (vh = 471 \<longrightarrow> (hint_above v \<noteq> None) = (abv \<noteq> [])
                        \<and> (hint_below v \<noteq> None) = (blw \<noteq> []))"
  unfolding vh_def abv_def blw_def v_def
  by (auto simp: render_def Let_def)

theorem hint_threshold_witness:
  "hint_above (fst (render (sample_component [10, 50, 2000] 100 470))) = None
   \<and> hint_below (fst (render (sample_component [10, 50, 2000] 100 470))) = None
   \<and> hint_above (fst (render (sample_component [10, 50, 2000] 100 471))) = Some 2
   \<and> hint_below (fst (render (sample_component [10, 50, 2000] 100 471))) = Some 1
   \<and> hint_above (fst (render (sample_component [2000] 100 471))) = None"
  using hint_threshold [of "sample_component [10, 50, 2000] 100 470"]
    hint_threshold [of "sample_component [10, 50, 2000] 100 471"]
    hint_threshold [of "sample_component [2000] 100 471"]
  by (simp add: sample_component_def render_def Let_def)

text \<open>
  C4. For a numeric offset, the instant path writes \<open>max 0 (offset - viewportHeight / 2)\<close>
  to the scroll position of the container and the animated path passes the same number
  to the animated scroll; the number is never negative.
\<close>

theorem centering_formula:
  fixes c :: component and offset :: rat
  defines "tgt \<equiv> max 0 (offset - viewportHeight (state c) / 2)"
  assumes "node c = Some n"
  shows "centerScrollingOnOffset (Some offset) False c
           = Inr (emit (SetScrollTop (Number tgt)) c)
       \<and> centerScrollingOnOffset (Some offset) True c
           = Inr (emit (ScrollTo (Some n) 0 (Number tgt)) c)
       \<and> nextScrollTop (Some offset) (viewportHeight (state c)) = Number tgt
       \<and> 0 \<le> tgt"
  using assms by (simp add: centerScrollingOnOffset_def nextScrollTop_def)

theorem centering_formula_witness:
  "node (sample_component [] 0 200) = Some sample_container
   \<and> effects (projr (centerScrollingOnOffset (Some 300) False (sample_component [] 0 200)))
       = [SetScrollTop (Number 200)]
   \<and> effects (projr (centerScrollingOnOffset (Some 300) True (sample_component [] 0 200)))
       = [ScrollTo (Some sample_container) 0 (Number 200)]
   \<and> effects (projr (centerScrollingOnOffset (Some 50) False (sample_component [] 0 200)))
       = [SetScrollTop (Number 0)]
   \<and> effects (projr (centerScrollingOnOffset (Some 50) True (sample_component [] 0 200)))
       = [ScrollTo (Some sample_container) 0 (Number 0)]"
  using centering_formula [of "sample_component [] 0 200" sample_container 300]
    centering_formula [of "sample_component [] 0 200" sample_container 50]
  by (simp add: sample_component_def emit_def)

text \<open>
  C5. With the container in place, every recompute succeeds and leaves in \<open>changeOffsets\<close>
  one offset for each tagged region of the container, in document order, each the
  region's \<open>offsetTop\<close> plus half its \<open>offsetHeight\<close> with a missing field read as 0. A
  region with no geometry at all has offset 0, and a container with no tagged region
  gives the empty list.
\<close>

theorem locate_correct:
  fixes c :: component and n :: element
  defines "regions \<equiv> filter tagged (descendants n)"
  assumes "node c = Some n"
  shows "\<exists>c'. recomputeChanges cb c = Inr c'
           \<and> changeOffsets (state c') =
               map (\<lambda>r. (case offsetTop r of None \<Rightarrow> 0 | Some t \<Rightarrow> t)
                        + (case offsetHeight r of None \<Rightarrow> 0 | Some h \<Rightarrow> h) / 2) regions
           \<and> length (changeOffsets (state c')) = length regions
           \<and> (regions = [] \<longrightarrow> changeOffsets (state c') = [])
           \<and> (\<forall>i < length regions.
                  offsetTop (regions ! i) = None \<and> offsetHeight (regions ! i) = None
                  \<longrightarrow> changeOffsets (state c') ! i = 0)"
proof -
  obtain c' where r: "recomputeChanges cb c = Inr c'" and s: "state c' = recomputed n"
    using recompute_result [OF assms(2), of cb] by blast
  have "changeOffsets (state c') =
          map (\<lambda>r. (case offsetTop r of None \<Rightarrow> 0 | Some t \<Rightarrow> t)
                   + (case offsetHeight r of None \<Rightarrow> 0 | Some h \<Rightarrow> h) / 2) regions"
    by (simp add: s recomputed_def querySelectorAll_def regions_def getCenterOffset_def get_def)
  then show ?thesis using r by simp
qed

theorem locate_correct_witness:
  "node (sample_component [] 0 0) = Some sample_container
   \<and> (\<exists>c'. recomputeChanges NoCallback (sample_component [] 0 0) = Inr c'
            \<and> changeOffsets (state c') = [300, 610])
   \<and> (\<exists>c'. recomputeChanges NoCallback
               ((sample_component [7] 0 0)\<lparr>node := Some sample_detached\<rparr>) = Inr c'
            \<and> changeOffsets (state c') = [0])
   \<and> (\<exists>c'. recomputeChanges NoCallback
               ((sample_component [7] 0 0)\<lparr>node := Some sample_untagged\<rparr>) = Inr c'
            \<and> changeOffsets (state c') = [])"
proof -
  have n1: "node (sample_component [] 0 0) = Some sample_container"
    by (simp add: sample_component_def)
  have n2: "node ((sample_component [7] 0 0)\<lparr>node := Some sample_detached\<rparr>)
              = Some sample_detached"
    by simp
  have n3: "node ((sample_component [7] 0 0)\<lparr>node := Some sample_untagged\<rparr>)
              = Some sample_untagged"
    by simp
  have r2: "filter tagged (descendants sample_detached)
              = [Element [''text-diff__deletions''] None None None []]"
    by (simp add: sample_detached_def tagged_def)
  have r3: "filter tagged (descendants sample_untagged) = []"
    by (simp add: sample_untagged_def tagged_def)
  from locate_correct [OF n1, of NoCallback]
  have a: "\<exists>c'. recomputeChanges NoCallback (sample_component [] 0 0) = Inr c'
            \<and> changeOffsets (state c') = [300, 610]"
    by (auto simp: sample_regions sample_region_def)
  from locate_correct [OF n2, of NoCallback]
  have b: "\<exists>c'. recomputeChanges NoCallback
               ((sample_component [7] 0 0)\<lparr>node := Some sample_detached\<rparr>) = Inr c'
            \<and> changeOffsets (state c') = [0]"
    by (auto simp: r2)
  from locate_correct [OF n3, of NoCallback]
  have c: "\<exists>c'. recomputeChanges NoCallback
               ((sample_component [7] 0 0)\<lparr>node := Some sample_untagged\<rparr>) = Inr c'
            \<and> changeOffsets (state c') = []"
    by (auto simp: r3)
  from n1 a b c show ?thesis by blast
qed

text \<open>
  C9, as the claim states it, fails: the ref callback called with \<open>null\<close> on an instance
  that holds no container reads a property of \<open>null\<close>.
\<close>

theorem redundant_teardown_counterexample:
  "node (initial sample_props) = None
   \<and> handleScrollableRef None (initial sample_props) = Inl TypeError"
  by (simp add: initial_def handleScrollableRef_def)

text \<open>
  C9, amended. The ref callback has no guard: called with \<open>null\<close> while no container is
  held it raises \<open>TypeError\<close>. Mounting always succeeds; in every state of a mounted
  component the scroll listener has been attached exactly once and not detached, and
  unmounting then succeeds, detaches it exactly once and clears the reference.
\<close>

theorem listener_lifecycle:
  assumes "reachable c"
  shows "(\<exists>m. mount hasWindow p n = Inr m \<and> reachable m)
       \<and> scrollListeners c = (1, 0)
       \<and> (\<exists>c'. unmount hasWindow c = Inr c' \<and> node c' = None
                \<and> scrollListeners c' = (1, 1)
                \<and> handleScrollableRef None c' = Inl TypeError)"
proof -
  have s: "settled c" using assms by (rule reachable_settled)
  then obtain k where k: "node c = Some k" by (auto simp: settled_def)
  have m: "\<exists>m. mount hasWindow p n = Inr m \<and> reachable m"
    using mount_result [of hasWindow p n] by (auto intro: reachable.by_mount)
  have l: "scrollListeners c = (1, 0)" using s by (simp add: settled_def)
  have u: "\<exists>c'. unmount hasWindow c = Inr c' \<and> node c' = None
                \<and> scrollListeners c' = (1, 1)
                \<and> handleScrollableRef None c' = Inl TypeError"
    using l
    by (simp add: unmount_result [OF k] scrollListeners_def componentWillUnmount_def
        handleScrollableRef_def)
  from m l u show ?thesis by blast
qed

theorem listener_lifecycle_witness:
  "\<exists>c. mount True sample_props sample_container = Inr c \<and> reachable c
       \<and> scrollListeners c = (1, 0)
       \<and> (\<exists>c'. unmount True c = Inr c' \<and> node c' = None
                \<and> scrollListeners c' = (1, 1)
                \<and> handleScrollableRef None c' = Inl TypeError)"
proof -
  obtain c where c: "mount True sample_props sample_container = Inr c"
    using mount_result [of True sample_props sample_container] by blast
  then have r: "reachable c" by (rule reachable.by_mount)
  from listener_lifecycle [OF r, of True sample_props sample_container] c r
  show ?thesis by blast
qed

text \<open>
  C10. In every state of a mounted component a scroll event succeeds, sets \<open>scrollTop\<close> to
  the \<open>scrollTop\<close> of the event's target (0 when the target or the field is missing),
  and leaves \<open>changeOffsets\<close>, \<open>viewportHeight\<close>, the props, the last scrolled revision,
  the container reference and the trace as they were.
\<close>

theorem scroll_frame:
  assumes "reachable c"
  shows "\<exists>c'. handleScroll e c = Inr c'
           \<and> scrollTop (state c') =
               (case target e of None \<Rightarrow> 0
                | Some t \<Rightarrow> (case dom_scrollTop t of None \<Rightarrow> 0 | Some v \<Rightarrow> v))
           \<and> changeOffsets (state c') = changeOffsets (state c)
           \<and> viewportHeight (state c') = viewportHeight (state c)
           \<and> props c' = props c
           \<and> lastScolledRevisionId c' = lastScolledRevisionId c
           \<and> node c' = node c
           \<and> effects c' = effects c"
proof -
  have "\<not> pending c" using reachable_settled [OF assms] by (simp add: settled_def)
  then show ?thesis by (simp add: handleScroll_result get_def)
qed

theorem scroll_frame_witness:
  "\<exists>c. mount True sample_props sample_container = Inr c \<and> reachable c
       \<and> changeOffsets (state c) = [300, 610] \<and> viewportHeight (state c) = 200
       \<and> (\<exists>c'. handleScroll \<lparr>target = Some (Element [] None None (Some 120) [])\<rparr> c = Inr c'
                \<and> state c' = \<lparr>changeOffsets = [300, 610], scrollTop = 120, viewportHeight = 200\<rparr>)
       \<and> (\<exists>c'. handleScroll \<lparr>target = Some (Element [] None None None [])\<rparr> c = Inr c'
                \<and> state c' = \<lparr>changeOffsets = [300, 610], scrollTop = 0, viewportHeight = 200\<rparr>)
       \<and> (\<exists>c'. handleScroll \<lparr>target = None\<rparr> c = Inr c'
                \<and> state c' = \<lparr>changeOffsets = [300, 610], scrollTop = 0, viewportHeight = 200\<rparr>)"
proof -
  obtain c where c: "mount True sample_props sample_container = Inr c"
    and s: "state c = recomputed sample_container"
    using mount_result [of True sample_props sample_container]
    by (auto simp: sample_props_def)
  from c have r: "reachable c" by (rule reachable.by_mount)
  have s': "changeOffsets (state c) = [300, 610]" "viewportHeight (state c) = 200"
    by (simp_all add: s sample_recomputed)
  have a: "\<exists>c'. handleScroll \<lparr>target = Some (Element [] None None (Some 120) [])\<rparr> c = Inr c'
             \<and> state c' = \<lparr>changeOffsets = [300, 610], scrollTop = 120, viewportHeight = 200\<rparr>"
    using scroll_frame [OF r, of "\<lparr>target = Some (Element [] None None (Some 120) [])\<rparr>"] s'
    by (auto intro: state.equality)
  have b: "\<exists>c'. handleScroll \<lparr>target = Some (Element [] None None None [])\<rparr> c = Inr c'
             \<and> state c' = \<lparr>changeOffsets = [300, 610], scrollTop = 0, viewportHeight = 200\<rparr>"
    using scroll_frame [OF r, of "\<lparr>target = Some (Element [] None None None [])\<rparr>"] s'
    by (auto intro: state.equality)
  have d: "\<exists>c'. handleScroll \<lparr>target = None\<rparr> c = Inr c'
             \<and> state c' = \<lparr>changeOffsets = [300, 610], scrollTop = 0, viewportHeight = 200\<rparr>"
    using scroll_frame [OF r, of "\<lparr>target = None\<rparr>"] s'
    by (auto intro: state.equality)
  from c r s' a b d show ?thesis by blast
qed

text \<open>
  C6, as the claim states it, fails: with an empty list above the viewport \<open>scrollAbove\<close>
  is not a no-op; it asks for an animated scroll to \<open>NaN\<close> and records the event.
\<close>

theorem hint_scroll_empty_counterexample:
  "changesAboveViewport (snd (render (sample_component [] 0 600))) = []
   \<and> scrollAbove (snd (render (sample_component [] 0 600)))
       \<noteq> Inr (snd (render (sample_component [] 0 600)))
   \<and> effects (snd (render (sample_component [] 0 600))) = []
   \<and> effects (projr (scrollAbove (snd (render (sample_component [] 0 600)))))
       = [ScrollTo (Some sample_container) 0 NaN,
          RecordTracksEvent ''calypso_editor_post_revisions_scroll_hint_used'' ''above'']"
  by (simp add: scrollAbove_result render_lists lodash_last_def nextScrollTop_def)
     (simp add: sample_component_def emit_def render_def)

text \<open>
  C6, amended. After a render of ascending offsets, \<open>scrollAbove\<close> asks for one animated
  scroll centred on the largest offset strictly less than \<open>scrollTop\<close> and \<open>scrollBelow\<close>
  for one centred on the smallest offset strictly greater than
  \<open>scrollTop + viewportHeight\<close>; each then records exactly one event with its direction.
  With an empty set the target is \<open>NaN\<close> and the event is still recorded; a hint is shown,
  and so can be clicked, only when its set is not empty.
\<close>

theorem hint_scroll:
  fixes c :: component
  defines "st \<equiv> scrollTop (state c)"
    and "vh \<equiv> viewportHeight (state c)"
    and "offs \<equiv> changeOffsets (state c)"
  defines "A \<equiv> {x. x \<in> set offs \<and> x < st}"
    and "B \<equiv> {x. x \<in> set offs \<and> st + vh < x}"
  assumes "sorted offs"
  shows "scrollAbove (snd (render c)) =
           Inr (emit (RecordTracksEvent ''calypso_editor_post_revisions_scroll_hint_used'' ''above'')
                 (emit (ScrollTo (node c) 0
                          (if A = {} then NaN else Number (max 0 (Max A - vh / 2))))
                    (snd (render c))))
       \<and> scrollBelow (snd (render c)) =
           Inr (emit (RecordTracksEvent ''calypso_editor_post_revisions_scroll_hint_used'' ''below'')
                 (emit (ScrollTo (node c) 0
                          (if B = {} then NaN else Number (max 0 (Min B - vh / 2))))
                    (snd (render c))))
       \<and> (hint_above (fst (render c)) \<noteq> None \<longrightarrow> A \<noteq> {})
       \<and> (hint_below (fst (render c)) \<noteq> None \<longrightarrow> B \<noteq> {})"
proof -
  let ?a = "filter (\<lambda>x. x < st) offs" and ?b = "filter (\<lambda>x. st + vh < x) offs"
  have sa: "set ?a = A" and sb: "set ?b = B" by (auto simp: A_def B_def)
  have ea: "(?a = []) = (A = {})" using sa by (metis set_empty)
  have eb: "(?b = []) = (B = {})" using sb by (metis set_empty)
  have "sorted ?a" and "sorted ?b"
    using assms(6) by (simp_all add: sorted_wrt_filter)
  then have la: "lodash_last ?a = (if A = {} then None else Some (Max A))"
    and lb: "lodash_first ?b = (if B = {} then None else Some (Min B))"
    using sorted_last_Max [of ?a] sorted_hd_Min [of ?b] ea eb sa sb
    by (simp_all add: lodash_last_def lodash_first_hd)
  have ca: "changesAboveViewport (snd (render c)) = ?a"
    and cb: "changesBelowViewport (snd (render c)) = ?b"
    by (simp_all add: render_lists st_def vh_def offs_def)
  have ha: "hint_above (fst (render c)) \<noteq> None \<longrightarrow> A \<noteq> {}"
    using ea by (auto simp: render_def Let_def st_def vh_def offs_def)
  have hb: "hint_below (fst (render c)) \<noteq> None \<longrightarrow> B \<noteq> {}"
    using eb by (auto simp: render_def Let_def st_def vh_def offs_def)
  have v: "viewportHeight (state c) = vh" by (simp add: vh_def)
  show ?thesis
    using ha hb
    by (simp add: scrollAbove_result scrollBelow_result ca cb la lb nextScrollTop_def v)
qed

theorem hint_scroll_witness:
  "sorted [10, 700, 1200, 1600, 1900 :: rat]
   \<and> hint_above (fst (render (sample_component [10, 700, 1200, 1600, 1900] 1000 500))) = Some 2
   \<and> hint_below (fst (render (sample_component [10, 700, 1200, 1600, 1900] 1000 500))) = Some 2
   \<and> effects (projr (scrollAbove
         (snd (render (sample_component [10, 700, 1200, 1600, 1900] 1000 500)))))
       = [ScrollTo (Some sample_container) 0 (Number 450),
          RecordTracksEvent ''calypso_editor_post_revisions_scroll_hint_used'' ''above'']
   \<and> effects (projr (scrollBelow
         (snd (render (sample_component [10, 700, 1200, 1600, 1900] 1000 500)))))
       = [ScrollTo (Some sample_container) 0 (Number 1350),
          RecordTracksEvent ''calypso_editor_post_revisions_scroll_hint_used'' ''below'']"
proof -
  let ?c = "sample_component [10, 700, 1200, 1600, 1900] 1000 500"
  have st: "state ?c = \<lparr>changeOffsets = [10, 700, 1200, 1600, 1900], scrollTop = 1000,
                          viewportHeight = 500\<rparr>"
    and nd: "node ?c = Some sample_container" and ef: "effects ?c = []"
    by (simp_all add: sample_component_def)
  have srt: "sorted (changeOffsets (state ?c))" by (simp add: st)
  have A: "{x. x \<in> set (changeOffsets (state ?c)) \<and> x < scrollTop (state ?c)} = {10, 700}"
    by (auto simp: st)
  have B: "{x. x \<in> set (changeOffsets (state ?c))
               \<and> scrollTop (state ?c) + viewportHeight (state ?c) < x} = {1600, 1900}"
    by (auto simp: st)
  have h: "hint_above (fst (render ?c)) = Some 2" "hint_below (fst (render ?c)) = Some 2"
    by (simp_all add: render_def Let_def st)
  from hint_scroll [OF srt] show ?thesis
    unfolding A B by (simp add: h nd ef st)
qed

text \<open>
  C1, as the claim states it, fails: the revision id 0 is neither \<open>null\<close> nor \<open>undefined\<close>,
  yet the guard \<open>! selectedRevisionId\<close> holds for it and no lifecycle notification ever
  scrolls.
\<close>

theorem auto_scroll_zero_counterexample:
  "Num 0 \<noteq> Null \<and> Num 0 \<noteq> Undefined
   \<and> selectedRevisionId (props (sample_unscrolled (Num 0))) = Num 0
   \<and> lastScolledRevisionId (sample_unscrolled (Num 0)) \<noteq> Num 0
   \<and> node (sample_unscrolled (Num 0)) = Some sample_container
   \<and> \<not> isl (run True [DidMount, DidUpdate, DidUpdate] (sample_unscrolled (Num 0)))
   \<and> instantScrolls (effects (projr
         (run True [DidMount, DidUpdate, DidUpdate] (sample_unscrolled (Num 0))))) = []"
proof -
  have "\<not> pending (sample_unscrolled (Num 0))"
    by (simp add: pending_def sample_unscrolled_def initial_def)
  from run_idle [OF this, of True "[DidMount, DidUpdate, DidUpdate]"]
  show ?thesis by (auto simp: sample_unscrolled_def initial_def)
qed

text \<open>
  C1, amended. With the container in place and a revision id \<open>r\<close> that is truthy (not
  \<open>null\<close>, not \<open>undefined\<close>, not 0) and differs from the last scrolled one, the first
  lifecycle notification (\<open>componentDidMount\<close> or \<open>componentDidUpdate\<close>) recomputes the
  offsets from the container and writes the scroll position once, centred on the first
  offset, or on 0 when there is none; it remembers \<open>r\<close>, and however many notifications
  follow while the props stay, none scrolls again. With a falsy \<open>r\<close>, or \<open>r\<close> equal to the
  last scrolled id, no notification scrolls.
\<close>

theorem auto_scroll_once:
  fixes c :: component and n :: element
  defines "r \<equiv> selectedRevisionId (props c)"
    and "offs \<equiv> map getCenterOffset (querySelectorAll n)"
  defines "t \<equiv> Number (max 0 ((case offs of [] \<Rightarrow> 0 | x # _ \<Rightarrow> x)
                               - (case offsetHeight n of None \<Rightarrow> 0 | Some h \<Rightarrow> h) / 2))"
  shows "(truthy r \<and> r \<noteq> lastScolledRevisionId c \<and> node c = Some n \<longrightarrow>
            (\<exists>c1 c'. notify hasWindow e c = Inr c1
               \<and> instantScrolls (effects c1) = instantScrolls (effects c) @ [t]
               \<and> changeOffsets (state c1) = offs
               \<and> lastScolledRevisionId c1 = r
               \<and> run hasWindow (e # es) c = Inr c'
               \<and> run hasWindow es c1 = Inr c'
               \<and> instantScrolls (effects c') = instantScrolls (effects c) @ [t]
               \<and> lastScolledRevisionId c' = r))
       \<and> (\<not> truthy r \<or> r = lastScolledRevisionId c \<longrightarrow>
            (\<exists>c'. run hasWindow (e # es) c = Inr c'
               \<and> instantScrolls (effects c') = instantScrolls (effects c)))"
proof (intro conjI impI)
  assume a: "truthy r \<and> r \<noteq> lastScolledRevisionId c \<and> node c = Some n"
  then have p: "pending c" and nd: "node c = Some n" by (simp_all add: pending_def r_def)
  have ft: "firstTarget n = t"
    by (simp add: firstTarget_def t_def offs_def firstOrZero_first get_def)
  obtain c1 where n1: "notify hasWindow e c = Inr c1" and p1: "\<not> pending c1"
    and s1: "state c1 = recomputed n" and l1: "lastScolledRevisionId c1 = r"
    and e1: "instantScrolls (effects c1) = instantScrolls (effects c) @ [t]"
    using notify_result [OF nd, of hasWindow e] p ft by (auto simp: r_def)
  obtain c' where r': "run hasWindow es c1 = Inr c'"
    and l': "lastScolledRevisionId c' = lastScolledRevisionId c1"
    and e': "instantScrolls (effects c') = instantScrolls (effects c1)"
    using run_idle [OF p1, of hasWindow es] by blast
  show "\<exists>c1 c'. notify hasWindow e c = Inr c1
               \<and> instantScrolls (effects c1) = instantScrolls (effects c) @ [t]
               \<and> changeOffsets (state c1) = offs
               \<and> lastScolledRevisionId c1 = r
               \<and> run hasWindow (e # es) c = Inr c'
               \<and> run hasWindow es c1 = Inr c'
               \<and> instantScrolls (effects c') = instantScrolls (effects c) @ [t]
               \<and> lastScolledRevisionId c' = r"
    using n1 s1 l1 e1 r' l' e' by (auto simp: recomputed_def offs_def)
next
  assume "\<not> truthy r \<or> r = lastScolledRevisionId c"
  then have "\<not> pending c" by (auto simp: pending_def r_def)
  from run_idle [OF this, of hasWindow "e # es"]
  show "\<exists>c'. run hasWindow (e # es) c = Inr c'
               \<and> instantScrolls (effects c') = instantScrolls (effects c)"
    by blast
qed

theorem auto_scroll_once_witness:
  "truthy (Num 42) \<and> Num 42 \<noteq> lastScolledRevisionId (sample_unscrolled (Num 42))
   \<and> node (sample_unscrolled (Num 42)) = Some sample_container
   \<and> \<not> isl (run True [DidMount, DidUpdate, DidUpdate] (sample_unscrolled (Num 42)))
   \<and> instantScrolls (effects (projr
         (run True [DidMount, DidUpdate, DidUpdate] (sample_unscrolled (Num 42)))))
       = [Number 200]
   \<and> Num 42 = lastScolledRevisionId (sample_component [] 0 0)
   \<and> \<not> isl (run True [DidUpdate, DidUpdate] (sample_component [] 0 0))
   \<and> instantScrolls (effects (projr
         (run True [DidUpdate, DidUpdate] (sample_component [] 0 0)))) = []"
proof -
  have a: "selectedRevisionId (props (sample_unscrolled (Num 42))) = Num 42"
      "lastScolledRevisionId (sample_unscrolled (Num 42)) = Null"
      "node (sample_unscrolled (Num 42)) = Some sample_container"
      "effects (sample_unscrolled (Num 42)) = []"
    by (simp_all add: sample_unscrolled_def initial_def)
  have b: "selectedRevisionId (props (sample_component [] 0 0)) = Num 42"
      "lastScolledRevisionId (sample_component [] 0 0) = Num 42"
      "effects (sample_component [] 0 0) = []"
    by (simp_all add: sample_component_def sample_props_def)
  from auto_scroll_once [of "sample_unscrolled (Num 42)" sample_container True DidMount
      "[DidUpdate, DidUpdate]"]
    auto_scroll_once [of "sample_component [] 0 0" sample_container True DidUpdate "[DidUpdate]"]
  show ?thesis
    by (auto simp: a b sample_offsets)
qed

text \<open>
  C2. When new props carry another revision id, \<open>componentWillReceiveProps\<close> empties
  \<open>changeOffsets\<close> before the render; what the update then does cannot depend on the
  offsets of the old revision or on the lists cached from them; and with the container
  in place the update succeeds with the cached lists derived from the new state: if it
  scrolls, the offsets and the viewport height were read from the container first and the
  target is computed from them, and otherwise \<open>changeOffsets\<close> stays empty.
\<close>

theorem invalidation:
  fixes c :: component and nextProps :: props and n :: element
  defines "B \<equiv> selectedRevisionId nextProps"
    and "offs \<equiv> map getCenterOffset (querySelectorAll n)"
    and "vh \<equiv> (case offsetHeight n of None \<Rightarrow> 0 | Some h \<Rightarrow> h)"
  assumes "selectedRevisionId nextProps \<noteq> selectedRevisionId (props c)"
  shows "changeOffsets (state (componentWillReceiveProps nextProps c)) = []
       \<and> receiveProps nextProps
             (c\<lparr>state := (state c)\<lparr>changeOffsets := stale\<rparr>,
                changesAboveViewport := above_cache, changesBelowViewport := below_cache\<rparr>)
           = receiveProps nextProps c
       \<and> (node c = Some n \<longrightarrow>
            (\<exists>c'. receiveProps nextProps c = Inr c' \<and> rendered c'
               \<and> (if truthy B \<and> B \<noteq> lastScolledRevisionId c
                    then changeOffsets (state c') = offs
                       \<and> viewportHeight (state c') = vh
                       \<and> effects c' = effects c
                           @ [SetScrollTop (Number (max 0
                                ((case offs of [] \<Rightarrow> 0 | x # _ \<Rightarrow> x) - vh / 2)))]
                    else changeOffsets (state c') = [] \<and> effects c' = effects c)))"
proof (intro conjI impI)
  show "changeOffsets (state (componentWillReceiveProps nextProps c)) = []"
    using assms(4) by (simp add: componentWillReceiveProps_def)
next
  have "snd (render ((componentWillReceiveProps nextProps
               (c\<lparr>state := (state c)\<lparr>changeOffsets := stale\<rparr>,
                  changesAboveViewport := above_cache, changesBelowViewport := below_cache\<rparr>))
             \<lparr>props := nextProps\<rparr>))
      = snd (render ((componentWillReceiveProps nextProps c)\<lparr>props := nextProps\<rparr>))"
    using assms(4) by (simp add: componentWillReceiveProps_def render_def Let_def)
  then show "receiveProps nextProps
             (c\<lparr>state := (state c)\<lparr>changeOffsets := stale\<rparr>,
                changesAboveViewport := above_cache, changesBelowViewport := below_cache\<rparr>)
           = receiveProps nextProps c"
    by (simp add: receiveProps_def)
next
  assume nd: "node c = Some n"
  have ft: "firstTarget n = Number (max 0 ((case offs of [] \<Rightarrow> 0 | x # _ \<Rightarrow> x) - vh / 2))"
    by (simp add: firstTarget_def offs_def vh_def firstOrZero_first get_def)
  have cw: "changeOffsets (state (componentWillReceiveProps nextProps c)) = []"
    using assms(4) by (simp add: componentWillReceiveProps_def)
  from receiveProps_result [OF nd, of nextProps]
  show "\<exists>c'. receiveProps nextProps c = Inr c' \<and> rendered c'
               \<and> (if truthy B \<and> B \<noteq> lastScolledRevisionId c
                    then changeOffsets (state c') = offs
                       \<and> viewportHeight (state c') = vh
                       \<and> effects c' = effects c
                           @ [SetScrollTop (Number (max 0
                                ((case offs of [] \<Rightarrow> 0 | x # _ \<Rightarrow> x) - vh / 2)))]
                    else changeOffsets (state c') = [] \<and> effects c' = effects c)"
    using ft cw by (auto simp: B_def recomputed_def offs_def vh_def get_def)
qed

theorem invalidation_witness:
  "selectedRevisionId (sample_props\<lparr>selectedRevisionId := Num 43\<rparr>)
     \<noteq> selectedRevisionId (props (sample_component [1, 2, 3] 0 200))
   \<and> node (sample_component [1, 2, 3] 0 200) = Some sample_container
   \<and> changeOffsets (state (sample_component [1, 2, 3] 0 200)) = [1, 2, 3]
   \<and> \<not> isl (receiveProps (sample_props\<lparr>selectedRevisionId := Num 43\<rparr>)
               (sample_component [1, 2, 3] 0 200))
   \<and> changeOffsets (state (projr
         (receiveProps (sample_props\<lparr>selectedRevisionId := Num 43\<rparr>)
            (sample_component [1, 2, 3] 0 200)))) = [300, 610]
   \<and> effects (projr
         (receiveProps (sample_props\<lparr>selectedRevisionId := Num 43\<rparr>)
            (sample_component [1, 2, 3] 0 200))) = [SetScrollTop (Number 200)]
   \<and> \<not> isl (receiveProps (sample_props\<lparr>selectedRevisionId := Null\<rparr>)
               (sample_component [1, 2, 3] 0 200))
   \<and> changeOffsets (state (projr
         (receiveProps (sample_props\<lparr>selectedRevisionId := Null\<rparr>)
            (sample_component [1, 2, 3] 0 200)))) = []
   \<and> effects (projr
         (receiveProps (sample_props\<lparr>selectedRevisionId := Null\<rparr>)
            (sample_component [1, 2, 3] 0 200))) = []
   \<and> receiveProps (sample_props\<lparr>selectedRevisionId := Num 43\<rparr>)
         (sample_component [1, 2, 3] 0 200)
       = receiveProps (sample_props\<lparr>selectedRevisionId := Num 43\<rparr>)
           (sample_component [] 0 200)"
proof -
  let ?c = "sample_component [1, 2, 3] 0 200"
  have a: "selectedRevisionId (props ?c) = Num 42" "lastScolledRevisionId ?c = Num 42"
      "node ?c = Some sample_container" "effects ?c = []"
      "changeOffsets (state ?c) = [1, 2, 3]"
    by (simp_all add: sample_component_def sample_props_def)
  have d1: "selectedRevisionId (sample_props\<lparr>selectedRevisionId := Num 43\<rparr>)
              \<noteq> selectedRevisionId (props ?c)"
    and d2: "selectedRevisionId (sample_props\<lparr>selectedRevisionId := Null\<rparr>)
              \<noteq> selectedRevisionId (props ?c)"
    by (simp_all add: a)
  have e: "?c\<lparr>state := (state ?c)\<lparr>changeOffsets := []\<rparr>,
              changesAboveViewport := [], changesBelowViewport := []\<rparr>
           = sample_component [] 0 200"
    by (simp add: sample_component_def)
  from invalidation [OF d1, where n = sample_container and stale = "[]"
        and above_cache = "[]" and below_cache = "[]"]
    invalidation [OF d2, where n = sample_container and stale = "[]"
        and above_cache = "[]" and below_cache = "[]"]
  show ?thesis
    unfolding e by (auto simp: a sample_offsets)
qed




end
